theory Spec2Isabelle
  imports Complex_Main
begin

section \<open>Python values, exceptions and dictionaries\<close>

text \<open>
  The development embeds \<^verbatim>\<open>src/qudi/logic/alignment_logic.py\<close> (class \<^verbatim>\<open>AlignmentLogic\<close>).
  Python floats are modelled as reals (rounding is not modelled); every exception the
  module or the numpy operations it calls can raise is a value of \<open>exn\<close>. No handler exists
  in the module, so a raised exception always leaves the method that raised it.
  \<open>LibraryError\<close> stands for an exception raised inside a library whose class is not
  modelled.
\<close>

datatype exn = KeyError | ValueError | TypeError | IndexError | AttributeError | LibraryError

type_synonym axis = string

text \<open>A Python dict keeps insertion order; assigning to an existing key keeps its place.\<close>

type_synonym posdict = "(axis \<times> real) list"

fun dict_set :: "'k \<Rightarrow> 'v \<Rightarrow> ('k \<times> 'v) list \<Rightarrow> ('k \<times> 'v) list" where
  "dict_set k v [] = [(k, v)]"
| "dict_set k v (p # ps) = (if fst p = k then (k, v) # ps else p # dict_set k v ps)"

definition dict_values :: "('k \<times> 'v) list \<Rightarrow> 'v list" where
  "dict_values d = map snd d"

definition dict_getitem :: "('k \<rightharpoonup> 'v) \<Rightarrow> 'k \<Rightarrow> exn + 'v" where
  "dict_getitem d k = (case d k of None \<Rightarrow> Inl KeyError | Some v \<Rightarrow> Inr v)"

text \<open>
  \<^verbatim>\<open>self._motor_positions[i]\<close> in \<^verbatim>\<open>gradient_descent\<close> subscripts the position dict, whose keys
  are axis labels (strings), with the integer \<^verbatim>\<open>i\<close> of \<^verbatim>\<open>enumerate\<close>: no integer is a key.
\<close>

definition dict_getitem_index :: "posdict \<Rightarrow> nat \<Rightarrow> exn + real" where
  "dict_getitem_index d i = Inl KeyError"

fun traverse :: "('a \<Rightarrow> exn + 'b) \<Rightarrow> 'a list \<Rightarrow> exn + 'b list" where
  "traverse f [] = Inr []"
| "traverse f (x # xs) =
     (case f x of Inl e \<Rightarrow> Inl e
      | Inr y \<Rightarrow> (case traverse f xs of Inl e \<Rightarrow> Inl e | Inr ys \<Rightarrow> Inr (y # ys)))"

text \<open>A sequence-valued attribute holds either a Python list or a numpy array.\<close>

datatype 'a pyseq = PyList "'a list" | NdArr "'a list"

fun items :: "'a pyseq \<Rightarrow> 'a list" where
  "items (PyList xs) = xs"
| "items (NdArr xs) = xs"

text \<open>
  \<^verbatim>\<open>xs[i]\<close> for a Python integer \<^verbatim>\<open>i\<close>: positions \<open>0 \<dots> len - 1\<close> from the front,
  \<open>-1 \<dots> -len\<close> from the back, anything else is out of range.
\<close>

definition seq_getitem :: "'a list \<Rightarrow> int \<Rightarrow> exn + 'a" where
  "seq_getitem xs i =
     (if 0 \<le> i \<and> i < int (length xs) then Inr (xs ! nat i)
      else if i < 0 \<and> - int (length xs) \<le> i then Inr (xs ! nat (int (length xs) + i))
      else Inl IndexError)"

section \<open>The numpy operations used by the module\<close>

text \<open>An n-dimensional array: its shape and its element at each multi-index.\<close>

datatype 'a ndarray = NdArray (shape: "nat list") (item: "nat list \<Rightarrow> 'a")

text \<open>All multi-indices of a shape in C order (the last index varies fastest).\<close>

definition indices :: "nat list \<Rightarrow> nat list list" where
  "indices s = product_lists (map (\<lambda>n. [0..<n]) s)"

definition ravel :: "'a ndarray \<Rightarrow> 'a list" where
  "ravel a = map (item a) (indices (shape a))"

fun swap2 :: "'a list \<Rightarrow> 'a list" where
  "swap2 (a # b # r) = b # a # r"
| "swap2 xs = xs"

text \<open>
  \<^verbatim>\<open>np.meshgrid(*xi)\<close> with the default \<^verbatim>\<open>indexing='xy'\<close>: every output has the shape
  \<open>(N\<^sub>2, N\<^sub>1, N\<^sub>3, \<dots>, N\<^sub>n)\<close> (the first two dimensions are exchanged when there are at
  least two inputs), and output \<open>k\<close> repeats \<open>xi[k]\<close> along its own dimension.
\<close>

definition mesh_axis :: "nat \<Rightarrow> nat \<Rightarrow> nat" where
  "mesh_axis n k = (if 1 < n \<and> k < 2 then 1 - k else k)"

definition meshgrid :: "'a list list \<Rightarrow> 'a ndarray list" where
  "meshgrid xi =
     map (\<lambda>k. NdArray (swap2 (map length xi)) (\<lambda>idx. xi ! k ! (idx ! mesh_axis (length xi) k)))
       [0..<length xi]"

text \<open>\<^verbatim>\<open>np.array\<close> of a list of equally shaped arrays stacks them along a new first dimension.\<close>

definition np_array :: "'a ndarray list \<Rightarrow> 'a ndarray" where
  "np_array arrs =
     NdArray (length arrs # (case arrs of [] \<Rightarrow> [] | a # _ \<Rightarrow> shape a))
       (\<lambda>idx. item (arrs ! hd idx) (tl idx))"

text \<open>\<^verbatim>\<open>.T\<close> reverses the order of the dimensions.\<close>

definition transpose_nd :: "'a ndarray \<Rightarrow> 'a ndarray" where
  "transpose_nd a = NdArray (rev (shape a)) (\<lambda>idx. item a (rev idx))"

fun chunks :: "nat \<Rightarrow> 'a list \<Rightarrow> 'a list list" where
  "chunks m xs = (if m = 0 \<or> xs = [] then [] else take m xs # chunks m (drop m xs))"

text \<open>\<^verbatim>\<open>.reshape(-1, m)\<close>: the elements in C order, cut into rows of \<open>m\<close>.\<close>

definition reshape_rows :: "nat \<Rightarrow> 'a ndarray \<Rightarrow> exn + 'a list list" where
  "reshape_rows m a =
     (if m = 0 then Inl ValueError
      else if length (ravel a) mod m = 0 then Inr (chunks m (ravel a))
      else Inl ValueError)"

text \<open>
  Line 273:
  \<^verbatim>\<open>np.array(np.meshgrid(*[self._axis_range[axis].T for axis in self._optimized_axis])).T.reshape(-1, len(self._optimized_axis))\<close>
  (\<^verbatim>\<open>.T\<close> of a one-dimensional range is the range itself).
\<close>

definition raster_points :: "'a list list \<Rightarrow> exn + 'a list list" where
  "raster_points ranges = reshape_rows (length ranges) (transpose_nd (np_array (meshgrid ranges)))"



definition np_max :: "real list \<Rightarrow> exn + real" where
  "np_max xs = (case xs of [] \<Rightarrow> Inl ValueError | x # r \<Rightarrow> Inr (foldl max x r))"

definition np_min :: "real list \<Rightarrow> exn + real" where
  "np_min xs = (case xs of [] \<Rightarrow> Inl ValueError | x # r \<Rightarrow> Inr (foldl min x r))"

text \<open>\<^verbatim>\<open>np.argmax\<close>: the first index of the maximum.\<close>

definition np_argmax :: "real list \<Rightarrow> exn + nat" where
  "np_argmax xs =
     (case xs of [] \<Rightarrow> Inl ValueError
      | x # r \<Rightarrow> Inr (length (takeWhile (\<lambda>y. y \<noteq> foldl max x r) xs)))"

text \<open>
  \<^verbatim>\<open>np.array\<close> of a list of rows is two-dimensional when the rows have one length; ragged
  rows are rejected.
\<close>

definition np_array2 :: "real list list \<Rightarrow> exn + real list list" where
  "np_array2 rows =
     (if list_all (\<lambda>r. length r = length (hd rows)) rows then Inr rows else Inl ValueError)"

text \<open>\<^verbatim>\<open>a[:, j]\<close>, \<^verbatim>\<open>a[::2]\<close>, \<^verbatim>\<open>a[1::2]\<close> and \<^verbatim>\<open>a[i, j]\<close> with Python's negative indices.\<close>

definition column :: "real list list \<Rightarrow> nat \<Rightarrow> exn + real list" where
  "column rows j =
     (if rows = [] \<or> list_ex (\<lambda>r. length r \<le> j) rows then Inl IndexError
      else Inr (map (\<lambda>r. r ! j) rows))"

fun evens :: "'a list \<Rightarrow> 'a list" where
  "evens (x # y # r) = x # evens r"
| "evens xs = xs"

fun odds :: "'a list \<Rightarrow> 'a list" where
  "odds (x # y # r) = y # odds r"
| "odds xs = []"

definition item2 :: "real list list \<Rightarrow> int \<Rightarrow> nat \<Rightarrow> exn + real" where
  "item2 rows i j =
     (case seq_getitem rows i of Inl e \<Rightarrow> Inl e
      | Inr r \<Rightarrow> if j < length r then Inr (r ! j) else Inl IndexError)"

text \<open>Subtraction of one-dimensional arrays, with numpy's broadcasting of a length-one operand.\<close>

definition np_subtract :: "real list \<Rightarrow> real list \<Rightarrow> exn + real list" where
  "np_subtract a b =
     (if length a = length b then Inr (map2 (-) a b)
      else if length a = 1 then Inr (map (\<lambda>y. hd a - y) b)
      else if length b = 1 then Inr (map (\<lambda>x. x - hd b) a)
      else Inl ValueError)"

text \<open>
  Float division as numpy performs it on arrays: a zero divisor gives \<open>nan\<close> or an infinity
  (with a warning), never an exception.
\<close>

datatype npfloat = Finite real | PosInf | NegInf | NaN

definition np_divide :: "real \<Rightarrow> real \<Rightarrow> npfloat" where
  "np_divide a b =
     (if b \<noteq> 0 then Finite (a / b)
      else if a = 0 then NaN else if 0 < a then PosInf else NegInf)"

fun np_greater :: "npfloat \<Rightarrow> real \<Rightarrow> bool" where
  "np_greater (Finite x) t = (t < x)"
| "np_greater PosInf t = True"
| "np_greater NegInf t = False"
| "np_greater NaN t = False"

fun np_add :: "real \<Rightarrow> npfloat \<Rightarrow> npfloat" where
  "np_add x (Finite y) = Finite (x + y)"
| "np_add x PosInf = PosInf"
| "np_add x NegInf = NegInf"
| "np_add x NaN = NaN"

section \<open>Collaborators: positioner, signal source, fitting library\<close>

text \<open>
  The motor and counter modules are reached through connectors. They are arbitrary
  deterministic devices over a hardware state \<open>'h\<close>; every call may change that state.
  A status is recorded by its truth value (\<^verbatim>\<open>Harmonixx.get_status\<close> reports \<^verbatim>\<open>True\<close> for an
  axis that is ready).
\<close>

record 'h hardware =
  motor_get_status :: "'h \<Rightarrow> axis list \<Rightarrow> (axis \<times> bool) list \<times> 'h"
  motor_move_abs :: "'h \<Rightarrow> posdict \<Rightarrow> posdict \<times> 'h"
  motor_get_pos :: "'h \<Rightarrow> axis list \<Rightarrow> posdict \<times> 'h"
  counter_get_process_value :: "'h \<Rightarrow> real \<times> 'h"
  time_sleep :: "real \<Rightarrow> 'h \<Rightarrow> 'h"

text \<open>
  The parameter names \<^verbatim>\<open>"A"\<close>, \<^verbatim>\<open>"B"\<close>, \<^verbatim>\<open>"x{}".format(j)\<close> and \<^verbatim>\<open>"w{}".format(j)\<close>.
\<close>

datatype pname = A | B | X nat | W nat

record param =
  pname :: pname
  pmin :: "real option"
  pmax :: "real option"
  pvalue :: real

text \<open>
  \<^verbatim>\<open>lmfit\<close> is not part of the repository: \<^verbatim>\<open>lmfit.Parameters()\<close>, \<^verbatim>\<open>params.add(...)\<close> and
  \<^verbatim>\<open>lmfit.minimize(...)\<close> are parameters of the model. \<^verbatim>\<open>minimize\<close> receives what the residual
  \<^verbatim>\<open>gaussian_multi\<close> reads (the sampled positions and values) and the selected axes, and
  yields the fitted value of each parameter it knows.
\<close>

record 'p lmfit =
  Parameters :: 'p
  params_add :: "'p \<Rightarrow> param \<Rightarrow> exn + 'p"
  minimize :: "'p \<Rightarrow> real list list \<Rightarrow> real list \<Rightarrow> axis list \<Rightarrow> exn + (pname \<rightharpoonup> real)"

section \<open>The state of \<^verbatim>\<open>AlignmentLogic\<close>\<close>

datatype OptimizationMethod = raster | gradient

text \<open>
  \<^verbatim>\<open>_optimization_method\<close> is the string of the status variable until the setter replaces it
  by a member of the enumeration.
\<close>

datatype method_val = MethodStr string | MethodEnum OptimizationMethod

text \<open>
  \<^verbatim>\<open>_points\<close> does not exist before the first sampling tick; \<^verbatim>\<open>raster_scan\<close> binds it to a
  two-dimensional array, \<^verbatim>\<open>gradient_descent\<close> to a Python list of floats and lists.
\<close>

datatype pyitem = Item real | ItemList "npfloat list"

datatype points_val = PointsUnset | PointsArray "real list list" | PointsList "pyitem list"

datatype slot = RasterSlot | GradientSlot

record constraint =
  pos_min :: real
  pos_max :: real
  pos_step :: real

text \<open>
  \<open>connections\<close> are the slots connected to \<^verbatim>\<open>_scanner_signal\<close> (\<^verbatim>\<open>emit\<close> re-arms a tick for
  each of them, \<^verbatim>\<open>disconnect()\<close> leaves none); \<open>hw\<close> is the state of the devices; \<open>moves\<close>
  records the argument of every \<^verbatim>\<open>motor().move_abs\<close> call, oldest first.
  The scan attributes are a list or an array: each run's first sampling tick rebinds them
  to empty lists before any read.
\<close>

record 'h state =
  constraints :: "axis \<rightharpoonup> constraint"
  axis_range :: "axis \<rightharpoonup> real list"
  optimized_axis :: "axis list"
  axis_list :: "axis list"
  scan_delay :: real
  optimization_method :: method_val
  alignments :: "string \<rightharpoonup> posdict"
  motor_positions :: posdict
  point_index :: nat
  points :: points_val
  scan :: "real pyseq"
  scan_pos :: "real list pyseq"
  connections :: "slot list"
  hw :: 'h
  moves :: "posdict list"

type_synonym 'h result = "(exn \<times> 'h state) + 'h state"

text \<open>The calls through the connectors.\<close>

definition move_abs :: "'h hardware \<Rightarrow> posdict \<Rightarrow> 'h state \<Rightarrow> posdict \<times> 'h state" where
  "move_abs M d s =
     (case motor_move_abs M (hw s) d of (r, h) \<Rightarrow> (r, s\<lparr>hw := h, moves := moves s @ [d]\<rparr>))"

definition get_pos :: "'h hardware \<Rightarrow> axis list \<Rightarrow> 'h state \<Rightarrow> posdict \<times> 'h state" where
  "get_pos M axes s = (case motor_get_pos M (hw s) axes of (r, h) \<Rightarrow> (r, s\<lparr>hw := h\<rparr>))"

definition get_status :: "'h hardware \<Rightarrow> axis list \<Rightarrow> 'h state \<Rightarrow> (axis \<times> bool) list \<times> 'h state" where
  "get_status M axes s = (case motor_get_status M (hw s) axes of (r, h) \<Rightarrow> (r, s\<lparr>hw := h\<rparr>))"

definition get_process_value :: "'h hardware \<Rightarrow> 'h state \<Rightarrow> real \<times> 'h state" where
  "get_process_value M s = (case counter_get_process_value M (hw s) of (v, h) \<Rightarrow> (v, s\<lparr>hw := h\<rparr>))"

section \<open>Axis ranges\<close>




section \<open>Cached position and named alignments\<close>

definition set_motor_positions :: "'h hardware \<Rightarrow> posdict \<Rightarrow> 'h state \<Rightarrow> 'h state" where
  "set_motor_positions M position_dict s =
     (case move_abs M position_dict s of (_, s1) \<Rightarrow>
        (case get_pos M (axis_list s1) s1 of (p, s2) \<Rightarrow> s2\<lparr>motor_positions := p\<rparr>))"

definition add_alignment :: "string \<Rightarrow> 'h state \<Rightarrow> 'h state" where
  "add_alignment name s = s\<lparr>alignments := (alignments s)(name \<mapsto> motor_positions s)\<rparr>"

definition retrieve_alignment :: "'h hardware \<Rightarrow> string \<Rightarrow> 'h state \<Rightarrow> 'h state" where
  "retrieve_alignment M name s =
     (case alignments s name of None \<Rightarrow> s
      | Some d \<Rightarrow> (case move_abs M d s of (r, s1) \<Rightarrow> s1\<lparr>motor_positions := r\<rparr>))"

text \<open>What may happen between saving an alignment and recalling it.\<close>

datatype action = MoveTo posdict | Save string | Recall string

fun perform :: "'h hardware \<Rightarrow> action \<Rightarrow> 'h state \<Rightarrow> 'h state" where
  "perform M (MoveTo d) s = set_motor_positions M d s"
| "perform M (Save n) s = add_alignment n s"
| "perform M (Recall n) s = retrieve_alignment M n s"

section \<open>Sampling one point\<close>

definition points_item :: "points_val \<Rightarrow> nat \<Rightarrow> nat \<Rightarrow> exn + real" where
  "points_item p i j =
     (case p of PointsUnset \<Rightarrow> Inl AttributeError
      | PointsList _ \<Rightarrow> Inl TypeError
      | PointsArray rows \<Rightarrow> item2 rows (int i) j)"

fun build_param_dict :: "points_val \<Rightarrow> nat \<Rightarrow> (nat \<times> axis) list \<Rightarrow> posdict \<Rightarrow> exn + posdict" where
  "build_param_dict p i [] d = Inr d"
| "build_param_dict p i ((j, ax) # rest) d =
     (case points_item p i j of Inl e \<Rightarrow> Inl e
      | Inr v \<Rightarrow> build_param_dict p i rest (dict_set ax v d))"

definition scan_point :: "'h hardware \<Rightarrow> nat \<Rightarrow> 'h state \<Rightarrow> 'h result" where
  "scan_point M idx s =
     (case build_param_dict (points s) idx (enumerate 0 (optimized_axis s)) [] of
        Inl e \<Rightarrow> Inl (e, s)
      | Inr param_dict \<Rightarrow>
          (case move_abs M param_dict s of (_, s1) \<Rightarrow>
             if scan_delay s1 < 0 then Inl (ValueError, s1)
             else
               let s2 = s1\<lparr>hw := time_sleep M (scan_delay s1) (hw s1)\<rparr> in
               (case scan s2 of NdArr _ \<Rightarrow> Inl (AttributeError, s2)
                | PyList vs \<Rightarrow>
                    (case get_process_value M s2 of (v, s3) \<Rightarrow>
                       let s4 = s3\<lparr>scan := PyList (vs @ [v])\<rparr> in
                       (case scan_pos s4 of NdArr _ \<Rightarrow> Inl (AttributeError, s4)
                        | PyList ps \<Rightarrow>
                            (case get_pos M (optimized_axis s4) s4 of (pd, s5) \<Rightarrow>
                               Inr (s5\<lparr>scan_pos := PyList (ps @ [dict_values pd])\<rparr>)))))))"

section \<open>Raster scan and fit\<close>

text \<open>The busy test of both tick methods: \<^verbatim>\<open>not np.all([status for status in ....values()])\<close>.\<close>

definition busy :: "(axis \<times> bool) list \<Rightarrow> bool" where
  "busy st = (\<not> list_all (\<lambda>b. b) (dict_values st))"

text \<open>Lines 292 to 294: the two parameters added for axis \<open>j\<close>.\<close>

definition center_param :: "real list list \<Rightarrow> real list \<Rightarrow> nat \<Rightarrow> exn + param" where
  "center_param rows max_pos j =
     (case column rows j of Inl e \<Rightarrow> Inl e
      | Inr col \<Rightarrow>
          (case np_min col of Inl e \<Rightarrow> Inl e
           | Inr lo \<Rightarrow>
               (case np_max col of Inl e \<Rightarrow> Inl e
                | Inr hi \<Rightarrow>
                    (case seq_getitem max_pos (int j) of Inl e \<Rightarrow> Inl e
                     | Inr v \<Rightarrow> Inr \<lparr>pname = X j, pmin = Some lo, pmax = Some hi, pvalue = v\<rparr>))))"

definition width_param :: "real list list \<Rightarrow> nat \<Rightarrow> exn + param" where
  "width_param rows j =
     (case column rows j of Inl e \<Rightarrow> Inl e
      | Inr col \<Rightarrow>
          (case np_subtract (odds col) (evens col) of Inl e \<Rightarrow> Inl e
           | Inr d \<Rightarrow>
               (case np_min d of Inl e \<Rightarrow> Inl e
                | Inr lo \<Rightarrow>
                    (case item2 rows 0 j of Inl e \<Rightarrow> Inl e
                     | Inr first \<Rightarrow>
                         (case item2 rows (- 1) j of Inl e \<Rightarrow> Inl e
                          | Inr final \<Rightarrow>
                              Inr \<lparr>pname = W j, pmin = Some lo, pmax = Some (first - final),
                                   pvalue = (first - final) / 10\<rparr>)))))"

fun add_axis_params ::
  "'p lmfit \<Rightarrow> real list list \<Rightarrow> real list \<Rightarrow> nat list \<Rightarrow> 'p \<Rightarrow> exn + 'p" where
  "add_axis_params L rows max_pos [] p = Inr p"
| "add_axis_params L rows max_pos (j # js) p =
     (case center_param rows max_pos j of Inl e \<Rightarrow> Inl e
      | Inr x \<Rightarrow>
          (case params_add L p x of Inl e \<Rightarrow> Inl e
           | Inr p1 \<Rightarrow>
               (case width_param rows j of Inl e \<Rightarrow> Inl e
                | Inr w \<Rightarrow>
                    (case params_add L p1 w of Inl e \<Rightarrow> Inl e
                     | Inr p2 \<Rightarrow> add_axis_params L rows max_pos js p2))))"

text \<open>Lines 286 to 294: the parameter set handed to the solver.\<close>

definition fit_params :: "'p lmfit \<Rightarrow> real list list \<Rightarrow> real list \<Rightarrow> nat \<Rightarrow> exn + 'p" where
  "fit_params L rows vals n =
     (case np_argmax vals of Inl e \<Rightarrow> Inl e
      | Inr k \<Rightarrow>
          (case seq_getitem rows (int k) of Inl e \<Rightarrow> Inl e
           | Inr max_pos \<Rightarrow>
               (case np_min vals of Inl e \<Rightarrow> Inl e
                | Inr lo \<Rightarrow>
                    (case np_max vals of Inl e \<Rightarrow> Inl e
                     | Inr hi \<Rightarrow>
                         (case params_add L (Parameters L)
                                 \<lparr>pname = A, pmin = Some lo, pmax = None, pvalue = hi\<rparr> of
                            Inl e \<Rightarrow> Inl e
                          | Inr p1 \<Rightarrow>
                              (case params_add L p1
                                      \<lparr>pname = B, pmin = Some lo, pmax = None, pvalue = lo\<rparr> of
                                 Inl e \<Rightarrow> Inl e
                               | Inr p2 \<Rightarrow> add_axis_params L rows max_pos [0..<n] p2))))))"

fun fitted_position :: "(pname \<rightharpoonup> real) \<Rightarrow> (nat \<times> axis) list \<Rightarrow> posdict \<Rightarrow> exn + posdict" where
  "fitted_position res [] d = Inr d"
| "fitted_position res ((j, ax) # rest) d =
     (case dict_getitem res (X j) of Inl e \<Rightarrow> Inl e
      | Inr v \<Rightarrow> fitted_position res rest (dict_set ax v d))"

text \<open>
  The \<^verbatim>\<open>else\<close> branch of \<^verbatim>\<open>raster_scan\<close> (lines 282 to 302), entered when every point has
  been visited. \<^verbatim>\<open>np.nan_to_num\<close> leaves real values as they are.
\<close>

definition fit_and_move :: "'h hardware \<Rightarrow> 'p lmfit \<Rightarrow> 'h state \<Rightarrow> 'h result" where
  "fit_and_move M L s =
     (let s1 = s\<lparr>connections := []\<rparr> in
      case np_array2 (items (scan_pos s1)) of Inl e \<Rightarrow> Inl (e, s1)
      | Inr rows \<Rightarrow>
          let s2 = s1\<lparr>scan_pos := NdArr rows\<rparr>;
              vals = items (scan s2);
              s3 = s2\<lparr>scan := NdArr vals\<rparr> in
          (case fit_params L rows vals (length (optimized_axis s3)) of Inl e \<Rightarrow> Inl (e, s3)
           | Inr params \<Rightarrow>
               (case minimize L params rows vals (optimized_axis s3) of Inl e \<Rightarrow> Inl (e, s3)
                | Inr res \<Rightarrow>
                    (case fitted_position res (enumerate 0 (optimized_axis s3)) [] of
                       Inl e \<Rightarrow> Inl (e, s3)
                     | Inr position_dict \<Rightarrow>
                         (case move_abs M position_dict s3 of (_, s4) \<Rightarrow>
                            (case get_pos M (axis_list s4) s4 of (p, s5) \<Rightarrow>
                               Inr (set_motor_positions M p s5)))))))"

definition points_rows :: "points_val \<Rightarrow> exn + nat" where
  "points_rows p =
     (case p of PointsArray rows \<Rightarrow> Inr (length rows) | _ \<Rightarrow> Inl AttributeError)"

text \<open>Lines 271 to 275: at the first point the grid is generated and the samples are cleared.\<close>

definition raster_begin :: "'h state \<Rightarrow> 'h result" where
  "raster_begin s =
     (if point_index s = 0
      then (case traverse (dict_getitem (axis_range s)) (optimized_axis s) of
              Inl e \<Rightarrow> Inl (e, s)
            | Inr ranges \<Rightarrow>
                (case raster_points ranges of Inl e \<Rightarrow> Inl (e, s)
                 | Inr pts \<Rightarrow>
                     Inr (s\<lparr>points := PointsArray pts, scan_pos := PyList [], scan := PyList []\<rparr>)))
      else Inr s)"

text \<open>Lines 277 to 302: sample the next point, or fit when none is left.\<close>

definition raster_step :: "'h hardware \<Rightarrow> 'p lmfit \<Rightarrow> 'h state \<Rightarrow> 'h result" where
  "raster_step M L s =
     (case points_rows (points s) of Inl e \<Rightarrow> Inl (e, s)
      | Inr n \<Rightarrow>
          if point_index s < n
          then (case scan_point M (point_index s) s of Inl err \<Rightarrow> Inl err
                | Inr s1 \<Rightarrow> Inr (s1\<lparr>point_index := point_index s1 + 1\<rparr>))
          else fit_and_move M L s)"

definition raster_scan :: "'h hardware \<Rightarrow> 'p lmfit \<Rightarrow> 'h state \<Rightarrow> 'h result" where
  "raster_scan M L s =
     (case get_status M (optimized_axis s) s of (st, s1) \<Rightarrow>
        if busy st then Inr s1
        else (case raster_begin s1 of Inl err \<Rightarrow> Inl err
              | Inr s2 \<Rightarrow> raster_step M L s2))"

section \<open>Gradient stepping\<close>

text \<open>
  Python's \<^verbatim>\<open>-\<close> on the two position rows: defined elementwise between array rows, undefined
  between lists. The flag tells whether the rows come out of an array.
\<close>

definition row_subtract :: "bool \<Rightarrow> real list \<Rightarrow> real list \<Rightarrow> exn + real list" where
  "row_subtract is_array a b = (if is_array then np_subtract a b else Inl TypeError)"

fun is_array :: "'a pyseq \<Rightarrow> bool" where
  "is_array (PyList xs) = False"
| "is_array (NdArr xs) = True"

text \<open>Lines 331 and 332.\<close>

definition slopes :: "real pyseq \<Rightarrow> real list pyseq \<Rightarrow> nat \<Rightarrow> exn + npfloat list" where
  "slopes vals pos k =
     (case seq_getitem (items vals) (int k) of Inl e \<Rightarrow> Inl e
      | Inr v1 \<Rightarrow>
          (case seq_getitem (items vals) (int k - 1) of Inl e \<Rightarrow> Inl e
           | Inr v0 \<Rightarrow>
               (case seq_getitem (items pos) (int k) of Inl e \<Rightarrow> Inl e
                | Inr p1 \<Rightarrow>
                    (case seq_getitem (items pos) (int k - 1) of Inl e \<Rightarrow> Inl e
                     | Inr p0 \<Rightarrow>
                         (case row_subtract (is_array pos) p1 p0 of Inl e \<Rightarrow> Inl e
                          | Inr den \<Rightarrow> Inr (map (np_divide (v1 - v0)) den))))))"

text \<open>Lines 325 and 326: the two starting points.\<close>

definition initial_points :: "'h state \<Rightarrow> exn + pyitem list" where
  "initial_points s =
     (case traverse (\<lambda>(i, ax). dict_getitem_index (motor_positions s) i)
             (enumerate 0 (optimized_axis s)) of
        Inl e \<Rightarrow> Inl e
      | Inr start \<Rightarrow>
          (case traverse
                  (\<lambda>(i, ax).
                     case dict_getitem_index (motor_positions s) i of Inl e \<Rightarrow> Inl e
                     | Inr m \<Rightarrow>
                         (case dict_getitem (axis_range s) ax of Inl e \<Rightarrow> Inl e
                          | Inr r \<Rightarrow>
                              (case seq_getitem r 1 of Inl e \<Rightarrow> Inl e
                               | Inr r1 \<Rightarrow>
                                   (case seq_getitem r 0 of Inl e \<Rightarrow> Inl e
                                    | Inr r0 \<Rightarrow> Inr (Finite (m + r1 - r0))))))
                  (enumerate 0 (optimized_axis s)) of
             Inl e \<Rightarrow> Inl e
           | Inr probe \<Rightarrow> Inr (map Item start @ [ItemList probe])))"

text \<open>Line 335: the next target, one coordinate per selected axis.\<close>

definition new_point :: "real list \<Rightarrow> npfloat list \<Rightarrow> nat list \<Rightarrow> exn + npfloat list" where
  "new_point p sl js =
     traverse (\<lambda>i. case seq_getitem p (int i) of Inl e \<Rightarrow> Inl e
                   | Inr x \<Rightarrow> (case seq_getitem sl (int i) of Inl e \<Rightarrow> Inl e
                               | Inr g \<Rightarrow> Inr (np_add x g))) js"

text \<open>Lines 323 to 328.\<close>

definition gradient_begin :: "'h state \<Rightarrow> 'h result" where
  "gradient_begin s =
     (if point_index s = 0
      then (case initial_points s of Inl e \<Rightarrow> Inl (e, s)
            | Inr pts \<Rightarrow>
                Inr (s\<lparr>points := PointsList pts, scan_pos := PyList [], scan := PyList []\<rparr>))
      else Inr s)"

text \<open>Lines 334 to 341: append the next target, or disconnect.\<close>

definition gradient_update :: "npfloat list \<Rightarrow> 'h state \<Rightarrow> 'h result" where
  "gradient_update sl s =
     (if list_all (\<lambda>g. np_greater g (1 / 1000)) sl
      then
        (case seq_getitem (items (scan_pos s)) (int (point_index s)) of
           Inl e \<Rightarrow> Inl (e, s)
         | Inr p \<Rightarrow>
             (case new_point p sl [0..<length (optimized_axis s)] of
                Inl e \<Rightarrow> Inl (e, s)
              | Inr new_points \<Rightarrow>
                  (case points s of
                     PointsList pts \<Rightarrow>
                       Inr (s\<lparr>points := PointsList (pts @ [ItemList new_points]),
                              point_index := point_index s + 1\<rparr>)
                   | _ \<Rightarrow> Inl (AttributeError, s))))
      else Inr (s\<lparr>connections := []\<rparr>))"

text \<open>Lines 330 to 341.\<close>

definition gradient_step :: "'h hardware \<Rightarrow> 'h state \<Rightarrow> 'h result" where
  "gradient_step M s =
     (case scan_point M (point_index s) s of Inl err \<Rightarrow> Inl err
      | Inr s1 \<Rightarrow>
          (case slopes (scan s1) (scan_pos s1) (point_index s1) of Inl e \<Rightarrow> Inl (e, s1)
           | Inr sl \<Rightarrow> gradient_update sl s1))"

definition gradient_descent :: "'h hardware \<Rightarrow> 'h state \<Rightarrow> 'h result" where
  "gradient_descent M s =
     (case get_status M (optimized_axis s) s of (st, s1) \<Rightarrow>
        if busy st then Inr s1
        else (case gradient_begin s1 of Inl err \<Rightarrow> Inl err
              | Inr s2 \<Rightarrow> gradient_step M s2))"

section \<open>Starting and stopping a run\<close>

definition start_optimization :: "'h hardware \<Rightarrow> 'p lmfit \<Rightarrow> 'h state \<Rightarrow> 'h result" where
  "start_optimization M L s =
     (let s0 = s\<lparr>point_index := 0\<rparr> in
      if optimization_method s0 = MethodStr ''raster''
      then raster_scan M L (s0\<lparr>connections := connections s0 @ [RasterSlot]\<rparr>)
      else if optimization_method s0 = MethodStr ''gradient''
      then gradient_descent M (s0\<lparr>connections := connections s0 @ [GradientSlot]\<rparr>)
      else Inr s0)"

definition stop_optimization :: "'h hardware \<Rightarrow> 'h state \<Rightarrow> 'h result" where
  "stop_optimization M s =
     (case points_rows (points s) of Inl e \<Rightarrow> Inl (e, s)
      | Inr n \<Rightarrow>
          if point_index s < n
          then (case move_abs M (motor_positions s) (s\<lparr>connections := []\<rparr>) of (_, s1) \<Rightarrow> Inr s1)
          else Inr s)"

text \<open>The state a method leaves behind, whether it returned or raised.\<close>

fun state_of :: "'h result \<Rightarrow> 'h state" where
  "state_of (Inl (e, s)) = s"
| "state_of (Inr s) = s"

text \<open>A tick is one delivery of the queued signal to a connected slot.\<close>

fun tick :: "'h hardware \<Rightarrow> 'p lmfit \<Rightarrow> slot \<Rightarrow> 'h state \<Rightarrow> 'h result" where
  "tick M L RasterSlot s = raster_scan M L s"
| "tick M L GradientSlot s = gradient_descent M s"

fun run_ticks :: "'h hardware \<Rightarrow> 'p lmfit \<Rightarrow> slot list \<Rightarrow> 'h state \<Rightarrow> 'h result" where
  "run_ticks M L [] s = Inr s"
| "run_ticks M L (sl # rest) s =
     (case tick M L sl s of Inl err \<Rightarrow> Inl err | Inr s1 \<Rightarrow> run_ticks M L rest s1)"

text \<open>The positioner reports a selected axis busy at each of the next \<open>n\<close> status polls.\<close>

fun busy_polls :: "'h hardware \<Rightarrow> axis list \<Rightarrow> nat \<Rightarrow> 'h \<Rightarrow> bool" where
  "busy_polls M axes 0 h = True"
| "busy_polls M axes (Suc n) h =
     (case motor_get_status M h axes of (st, h1) \<Rightarrow> busy st \<and> busy_polls M axes n h1)"

section \<open>A simulated rig\<close>

text \<open>
  A positioner that is busy for the next \<open>h\<close> status polls, accepts every move, reports
  position 0 on every axis, and a signal source that always reads 1; a fitting library
  that records the parameters it is given and whose solver raises.
\<close>

definition sim_hardware :: "nat hardware" where
  "sim_hardware =
     \<lparr>motor_get_status = (\<lambda>h axes. (map (\<lambda>a. (a, h = 0)) axes, h - 1)),
      motor_move_abs = (\<lambda>h d. (d, h)),
      motor_get_pos = (\<lambda>h axes. (map (\<lambda>a. (a, 0)) axes, h)),
      counter_get_process_value = (\<lambda>h. (1, h)),
      time_sleep = (\<lambda>t h. h)\<rparr>"

definition sim_lmfit :: "param list lmfit" where
  "sim_lmfit =
     \<lparr>Parameters = [],
      params_add = (\<lambda>p x. Inr (p @ [x])),
      minimize = (\<lambda>p rows vals axes. Inl LibraryError)\<rparr>"

definition idle_state :: "nat state" where
  "idle_state =
     \<lparr>constraints = [''x'' \<mapsto> \<lparr>pos_min = 0, pos_max = 3, pos_step = 1\<rparr>,
                     ''y'' \<mapsto> \<lparr>pos_min = 0, pos_max = 2, pos_step = 1\<rparr>],
      axis_range = [''x'' \<mapsto> [0, 1, 2], ''y'' \<mapsto> [0, 1]],
      optimized_axis = [''x'', ''y''],
      axis_list = [''x'', ''y''],
      scan_delay = 0,
      optimization_method = MethodStr ''raster'',
      alignments = Map.empty,
      motor_positions = [(''x'', 0), (''y'', 0)],
      point_index = 0,
      points = PointsUnset,
      scan = PyList [],
      scan_pos = PyList [],
      connections = [],
      hw = 0,
      moves = []\<rparr>"


definition scanning_state :: "nat state" where
  "scanning_state =
     idle_state\<lparr>point_index := 2,
                points := PointsArray [[0, 0], [0, 1], [1, 0], [1, 1], [2, 0], [2, 1]],
                scan := PyList [1, 1],
                scan_pos := PyList [[0, 0], [0, 0]],
                connections := [RasterSlot],
                moves := [[(''x'', 0), (''y'', 0)], [(''x'', 0), (''y'', 1)]]\<rparr>"

definition first_state :: "nat state" where
  "first_state =
     idle_state\<lparr>point_index := 1,
                points := PointsArray [[0, 0], [0, 1], [1, 0], [1, 1], [2, 0], [2, 1]],
                scan := PyList [1],
                scan_pos := PyList [[0, 0]],
                connections := [RasterSlot],
                moves := [[(''x'', 0), (''y'', 0)]]\<rparr>"


definition gradient_state :: "nat state" where
  "gradient_state = idle_state\<lparr>optimization_method := MethodStr ''gradient''\<rparr>"

section \<open>An invariant of a run\<close>

text \<open>
  From \<^verbatim>\<open>start_optimization\<close> on, the cached position is the one cached at the start until
  the fit has moved the positioner, and by then every point of the array has been visited.
\<close>


fun completed :: "points_val \<Rightarrow> nat \<Rightarrow> bool" where
  "completed (PointsArray pts) i = (length pts \<le> i \<and> 0 < i)"
| "completed p i = False"

definition run_invariant :: "posdict \<Rightarrow> 'h state \<Rightarrow> bool" where
  "run_invariant mp s = (motor_positions s = mp \<or> completed (points s) (point_index s))"

section \<open>Raster points: the order of the generated grid\<close>

lemma concat_concat_map:
  "concat (concat (map f xs)) = concat (map (\<lambda>x. concat (f x)) xs)"
  by (induction xs) simp_all

lemma product_lists_snoc:
  "product_lists (xss @ [ys]) = concat (map (\<lambda>j. map (\<lambda>k. j @ [k]) ys) (product_lists xss))"
proof (induction xss)
  case Nil
  show ?case by (simp add: comp_def)
next
  case (Cons xs xss)
  show ?case
    by (simp add: Cons.IH map_concat comp_def concat_concat_map)
qed

lemma indices_snoc:
  "indices (s @ [n]) = concat (map (\<lambda>j. map (\<lambda>k. j @ [k]) [0..<n]) (indices s))"
  by (simp add: indices_def product_lists_snoc)

lemma chunks_concat:
  "0 < n \<Longrightarrow> chunks n (concat (map (\<lambda>j. map (g j) [0..<n]) js)) = map (\<lambda>j. map (g j) [0..<n]) js"
proof (induction js)
  case Nil
  show ?case by simp
next
  case (Cons j js)
  have "chunks n (map (g j) [0..<n] @ concat (map (\<lambda>j. map (g j) [0..<n]) js))
        = map (g j) [0..<n] # chunks n (concat (map (\<lambda>j. map (g j) [0..<n]) js))"
    using Cons.prems by (subst chunks.simps) simp
  then show ?case using Cons by simp
qed

lemma product_lists_nth:
  "product_lists ys = map (\<lambda>idx. map2 (\<lambda>y i. y ! i) ys idx) (indices (map length ys))"
proof (induction ys)
  case Nil
  show ?case by (simp add: indices_def)
next
  case (Cons y ys)
  have "map (\<lambda>x. map ((#) x) (product_lists ys)) y
      = map (\<lambda>i. map ((#) (y ! i)) (product_lists ys)) [0..<length y]"
    by (rule nth_equalityI) simp_all
  then show ?case using Cons
    by (simp add: indices_def comp_def map_concat)
qed


lemma swap2_length [simp]: "length (swap2 xs) = length xs"
  by (induction xs rule: swap2.induct) simp_all

lemma swap2_map: "swap2 (map f xs) = map f (swap2 xs)"
  by (induction xs rule: swap2.induct) simp_all

lemma swap2_nth:
  "k < length xs \<Longrightarrow> swap2 xs ! k = xs ! mesh_axis (length xs) k"
proof (induction xs rule: swap2.induct)
  case (1 a b r)
  then show ?case by (cases k; cases "k - 1") (simp_all add: mesh_axis_def)
qed (simp_all add: mesh_axis_def)

lemma mesh_axis_less: "k < n \<Longrightarrow> mesh_axis n k < n"
  by (auto simp: mesh_axis_def)

lemma indices_length: "j \<in> set (indices s) \<Longrightarrow> length j = length s"
  by (simp add: indices_def in_set_product_lists_length)

lemma map2_nth_row:
  "length idx = length ys \<Longrightarrow> map2 (\<lambda>y i. y ! i) ys idx = map (\<lambda>k. ys ! k ! (idx ! k)) [0..<length ys]"
  by (rule nth_equalityI) simp_all


lemma swap2_swap2 [simp]: "swap2 (swap2 xs) = xs"
  by (induction xs rule: swap2.induct) simp_all

lemma prod_list_swap2: "prod_list (swap2 (xs :: nat list)) = prod_list xs"
  by (induction xs rule: swap2.induct) simp_all

lemma foldr_times_prod_list: "foldr (*) s (Suc 0) = prod_list s"
  by (simp only: prod_list.eq_foldr One_nat_def)

lemma length_indices: "length (indices s) = prod_list s"
  by (simp add: indices_def length_product_lists comp_def foldr_times_prod_list)

lemma shape_meshgrid:
  "rs \<noteq> [] \<Longrightarrow> shape (np_array (meshgrid rs)) = length rs # swap2 (map length rs)"
  by (cases rs) (simp_all add: np_array_def meshgrid_def upt_conv_Cons del: upt_Suc)

lemma item_meshgrid:
  "k < length rs \<Longrightarrow>
   item (np_array (meshgrid rs)) (k # i) = rs ! k ! (i ! mesh_axis (length rs) k)"
  by (simp add: np_array_def meshgrid_def)

lemma ravel_transposed:
  assumes "rs \<noteq> []"
  shows "ravel (transpose_nd (np_array (meshgrid rs))) =
         concat (map (\<lambda>j. map (\<lambda>k. rs ! k ! (rev j ! mesh_axis (length rs) k)) [0..<length rs])
                  (indices (rev (swap2 (map length rs)))))"
proof -
  have "ravel (transpose_nd (np_array (meshgrid rs))) =
        concat (map (\<lambda>j. map (\<lambda>k. item (np_array (meshgrid rs)) (k # rev j)) [0..<length rs])
                  (indices (rev (swap2 (map length rs)))))"
    using assms
    by (simp add: ravel_def transpose_nd_def shape_meshgrid indices_snoc map_concat comp_def)
  also have "\<dots> = concat (map (\<lambda>j. map (\<lambda>k. rs ! k ! (rev j ! mesh_axis (length rs) k)) [0..<length rs])
                  (indices (rev (swap2 (map length rs)))))"
    by (intro arg_cong[where f=concat] map_cong refl) (simp add: item_meshgrid)
  finally show ?thesis .
qed

lemma raster_points_rows:
  assumes "rs \<noteq> []"
  shows "raster_points rs =
         Inr (map (\<lambda>j. map (\<lambda>k. rs ! k ! (rev j ! mesh_axis (length rs) k)) [0..<length rs])
                  (indices (rev (swap2 (map length rs)))))"
proof -
  let ?n = "length rs"
  let ?js = "indices (rev (swap2 (map length rs)))"
  let ?g = "\<lambda>j k. rs ! k ! (rev j ! mesh_axis ?n k)"
  have n: "0 < ?n" using assms by simp
  have len: "length (concat (map (\<lambda>j. map (?g j) [0..<?n]) ?js)) = length ?js * ?n"
    by (simp add: length_concat comp_def sum_list_triv)
  show ?thesis
    unfolding raster_points_def reshape_rows_def ravel_transposed[OF assms]
    using n by (simp only: len chunks_concat[OF n]) simp
qed

lemma swap2_map2:
  "length xs = length ys \<Longrightarrow> swap2 (map2 f xs ys) = map2 f (swap2 xs) (swap2 ys)"
  by (cases xs; cases ys; cases "tl xs"; cases "tl ys") auto

lemma row_permuted:
  assumes "length j = length rs"
  shows "swap2 (rev (map2 (\<lambda>y i. y ! i) (rev (swap2 rs)) j)) =
         map (\<lambda>k. rs ! k ! (rev j ! mesh_axis (length rs) k)) [0..<length rs]"
proof -
  have "rev (map2 (\<lambda>y i. y ! i) (rev (swap2 rs)) j) = map2 (\<lambda>y i. y ! i) (swap2 rs) (rev j)"
    using assms zip_rev[of "rev (swap2 rs)" j] by (simp add: rev_map)
  then have "swap2 (rev (map2 (\<lambda>y i. y ! i) (rev (swap2 rs)) j)) = map2 (\<lambda>y i. y ! i) rs (swap2 (rev j))"
    using assms by (simp add: swap2_map2)
  also have "\<dots> = map (\<lambda>k. rs ! k ! (swap2 (rev j) ! k)) [0..<length rs]"
    using assms by (simp add: map2_nth_row)
  also have "\<dots> = map (\<lambda>k. rs ! k ! (rev j ! mesh_axis (length rs) k)) [0..<length rs]"
    using assms by (simp add: swap2_nth)
  finally show ?thesis .
qed

lemma raster_points_product:
  assumes "rs \<noteq> []"
  shows "raster_points rs = Inr (map (swap2 \<circ> rev) (product_lists (rev (swap2 rs))))"
proof -
  have "map (swap2 \<circ> rev) (product_lists (rev (swap2 rs))) =
        map (\<lambda>j. swap2 (rev (map2 (\<lambda>y i. y ! i) (rev (swap2 rs)) j)))
            (indices (rev (swap2 (map length rs))))"
    by (subst product_lists_nth) (simp add: comp_def rev_map swap2_map)
  also have "\<dots> = map (\<lambda>j. map (\<lambda>k. rs ! k ! (rev j ! mesh_axis (length rs) k)) [0..<length rs])
                  (indices (rev (swap2 (map length rs))))"
    by (rule map_cong[OF refl]) (simp add: row_permuted indices_length)
  finally show ?thesis by (simp add: raster_points_rows[OF assms])
qed

lemma product_lists_two_axes:
  assumes "rs \<noteq> []" "length rs \<le> 2"
  shows "map (swap2 \<circ> rev) (product_lists (rev (swap2 rs))) = product_lists rs"
proof -
  consider a where "rs = [a]" | a b where "rs = [a, b]"
    using assms by (cases rs; cases "tl rs"; cases "tl (tl rs)") auto
  then show ?thesis
    by cases (simp_all add: comp_def map_concat)
qed


lemma scan_point_points: "points (state_of (scan_point M i s)) = points s"
  by (auto simp add: scan_point_def move_abs_def get_pos_def get_process_value_def Let_def
      split: sum.splits prod.splits pyseq.splits)

lemma fit_and_move_points: "points (state_of (fit_and_move M L s)) = points s"
  by (auto simp add: fit_and_move_def set_motor_positions_def move_abs_def get_pos_def Let_def
      split: sum.splits prod.splits)

lemma traverse_length: "traverse f xs = Inr ys \<Longrightarrow> length ys = length xs"
  by (induction xs arbitrary: ys) (auto split: sum.splits)

lemma raster_step_points: "points (state_of (raster_step M L s)) = points s"
proof (cases "points_rows (points s)")
  case (Inl e)
  then show ?thesis by (simp add: raster_step_def)
next
  case (Inr n)
  show ?thesis
  proof (cases "point_index s < n")
    case True
    then show ?thesis
      using Inr scan_point_points[of M "point_index s" s]
      by (auto simp add: raster_step_def split: sum.splits)
  next
    case False
    then show ?thesis using Inr fit_and_move_points[of M L s] by (simp add: raster_step_def)
  qed
qed

lemma raster_scan_points:
  assumes "point_index s = 0"
      and "traverse (dict_getitem (axis_range s)) (optimized_axis s) = Inr ranges"
      and "raster_points ranges = Inr pts"
      and "\<not> busy (fst (motor_get_status M (hw s) (optimized_axis s)))"
  shows "points (state_of (raster_scan M L s)) = PointsArray pts"
proof -
  obtain st h where st: "motor_get_status M (hw s) (optimized_axis s) = (st, h)"
    by (cases "motor_get_status M (hw s) (optimized_axis s)")
  let ?s2 = "s\<lparr>hw := h, points := PointsArray pts, scan_pos := PyList [], scan := PyList []\<rparr>"
  have "raster_scan M L s = raster_step M L ?s2"
    using assms st by (simp add: raster_scan_def get_status_def raster_begin_def)
  then show ?thesis using raster_step_points[of M L ?s2] by simp
qed

text \<open>
  C1 (amended). Starting a raster optimization on a non-empty selection of axes with
  configured ranges, with the positioner ready, generates a point array whose length is the
  product of the selected ranges' lengths. Its rows are the Cartesian expansion of the
  ranges in which the second selected axis varies fastest, then the first, then the third,
  and so on to the last selected axis, which varies slowest; for one or two selected axes
  this is the row-major order in which the last axis varies fastest.
\<close>

theorem start_raster_points:
  assumes "optimization_method s = MethodStr ''raster''"
      and "optimized_axis s \<noteq> []"
      and "traverse (dict_getitem (axis_range s)) (optimized_axis s) = Inr ranges"
      and "\<not> busy (fst (motor_get_status M (hw s) (optimized_axis s)))"
  shows "\<exists>pts. points (state_of (start_optimization M L s)) = PointsArray pts
           \<and> length pts = prod_list (map length ranges)
           \<and> pts = map (swap2 \<circ> rev) (product_lists (rev (swap2 ranges)))
           \<and> (length ranges \<le> 2 \<longrightarrow> pts = product_lists ranges)"
proof -
  have ne: "ranges \<noteq> []"
    using traverse_length[OF assms(3)] assms(2) by auto
  let ?pts = "map (swap2 \<circ> rev) (product_lists (rev (swap2 ranges)))"
  have rp: "raster_points ranges = Inr ?pts"
    by (rule raster_points_product[OF ne])
  let ?s0 = "s\<lparr>point_index := 0, connections := connections s @ [RasterSlot]\<rparr>"
  have "start_optimization M L s = raster_scan M L ?s0"
    using assms(1) by (simp add: start_optimization_def)
  moreover have "points (state_of (raster_scan M L ?s0)) = PointsArray ?pts"
    by (rule raster_scan_points[where ranges = ranges]) (use assms rp in simp_all)
  moreover have "length ?pts = prod_list (map length ranges)"
  proof -
    have "map length (rev (swap2 ranges)) = rev (swap2 (map length ranges))"
      by (simp add: rev_map swap2_map)
    then show ?thesis
      by (simp add: length_product_lists foldr_times_prod_list prod_list_swap2)
  qed
  moreover have "length ranges \<le> 2 \<longrightarrow> ?pts = product_lists ranges"
    using product_lists_two_axes[OF ne] by simp
  ultimately show ?thesis by simp
qed

theorem start_raster_points_witness:
  "optimization_method idle_state = MethodStr ''raster''
   \<and> optimized_axis idle_state \<noteq> []
   \<and> traverse (dict_getitem (axis_range idle_state)) (optimized_axis idle_state) = Inr [[0, 1, 2], [0, 1]]
   \<and> \<not> busy (fst (motor_get_status sim_hardware (hw idle_state) (optimized_axis idle_state)))
   \<and> (\<exists>pts. points (state_of (start_optimization sim_hardware sim_lmfit idle_state)) = PointsArray pts
           \<and> length pts = 6
           \<and> pts = [[0, 0], [0, 1], [1, 0], [1, 1], [2, 0], [2, 1]])"
  using start_raster_points[of idle_state "[[0, 1, 2], [0, 1]]" sim_hardware sim_lmfit]
  by (simp add: idle_state_def sim_hardware_def dict_getitem_def busy_def dict_values_def)

text \<open>
  With three selected axes the generated order is not the row-major expansion: the third
  axis varies slowest.
\<close>

theorem raster_order_counterexample:
  "raster_points [[1, 2], [3, 4], [5, 6 :: real]] =
     Inr [[1, 3, 5], [1, 4, 5], [2, 3, 5], [2, 4, 5], [1, 3, 6], [1, 4, 6], [2, 3, 6], [2, 4, 6]]
   \<and> raster_points [[1, 2], [3, 4], [5, 6 :: real]] \<noteq> Inr (product_lists [[1, 2], [3, 4], [5, 6]])"
  by (simp add: raster_points_product)



section \<open>Axis-range edits\<close>






section \<open>Saving and recalling an alignment\<close>
lemma set_motor_positions_alignments:
  "alignments (set_motor_positions M d s) = alignments s"
  by (simp add: set_motor_positions_def move_abs_def get_pos_def split: prod.splits)

lemma retrieve_alignment_alignments:
  "alignments (retrieve_alignment M n s) = alignments s"
  by (simp add: retrieve_alignment_def move_abs_def split: prod.splits option.splits)

lemma perform_alignments:
  "a \<noteq> Save name \<Longrightarrow> alignments (perform M a s) name = alignments s name"
  by (cases a) (simp_all add: set_motor_positions_alignments retrieve_alignment_alignments
      add_alignment_def)

lemma perform_all_alignments:
  "Save name \<notin> set acts \<Longrightarrow>
   alignments (foldl (\<lambda>s a. perform M a s) s acts) name = alignments s name"
  by (induction acts arbitrary: s) (auto simp: perform_alignments)

text \<open>
  C8. Saving the cached position under a name and recalling that name later, after any
  moves, recalls and saves under other names, commands the positioner (the last
  \<^verbatim>\<open>move_abs\<close>) to exactly the position dict that was cached at save time.
\<close>

theorem recall_commands_saved_position:
  assumes "Save name \<notin> set acts"
  shows "moves (retrieve_alignment M name (foldl (\<lambda>s a. perform M a s) (add_alignment name s) acts))
         = moves (foldl (\<lambda>s a. perform M a s) (add_alignment name s) acts) @ [motor_positions s]"
proof -
  let ?s1 = "foldl (\<lambda>s a. perform M a s) (add_alignment name s) acts"
  have "alignments ?s1 name = Some (motor_positions s)"
    using perform_all_alignments[OF assms, of M "add_alignment name s"]
    by (simp add: add_alignment_def)
  then show ?thesis
    by (simp add: retrieve_alignment_def move_abs_def split: prod.splits)
qed

theorem recall_commands_saved_position_witness:
  "Save ''A'' \<notin> set [MoveTo [(''x'', 2), (''y'', 1)], Save ''B'', Recall ''B'']
   \<and> last (moves (retrieve_alignment sim_hardware ''A''
        (foldl (\<lambda>s a. perform sim_hardware a s) (add_alignment ''A'' idle_state)
           [MoveTo [(''x'', 2), (''y'', 1)], Save ''B'', Recall ''B'']))) = [(''x'', 0), (''y'', 0)]"
  using recall_commands_saved_position[of "''A''" "[MoveTo [(''x'', 2), (''y'', 1)], Save ''B'', Recall ''B'']"
      sim_hardware idle_state]
  by (simp add: idle_state_def)

section \<open>Ticks while the positioner is busy\<close>
lemma raster_scan_busy:
  "busy (fst (motor_get_status M (hw s) (optimized_axis s))) \<Longrightarrow>
   raster_scan M L s = Inr (s\<lparr>hw := snd (motor_get_status M (hw s) (optimized_axis s))\<rparr>)"
  by (cases "motor_get_status M (hw s) (optimized_axis s)") (simp add: raster_scan_def get_status_def)

lemma gradient_descent_busy:
  "busy (fst (motor_get_status M (hw s) (optimized_axis s))) \<Longrightarrow>
   gradient_descent M s = Inr (s\<lparr>hw := snd (motor_get_status M (hw s) (optimized_axis s))\<rparr>)"
  by (cases "motor_get_status M (hw s) (optimized_axis s)") (simp add: gradient_descent_def get_status_def)

lemma tick_busy:
  "busy (fst (motor_get_status M (hw s) (optimized_axis s))) \<Longrightarrow>
   tick M L sl s = Inr (s\<lparr>hw := snd (motor_get_status M (hw s) (optimized_axis s))\<rparr>)"
  by (cases sl) (simp_all add: raster_scan_busy gradient_descent_busy)

text \<open>
  C6. While the positioner reports a selected axis busy, a tick of either method changes
  nothing but the device state: after any number of consecutive busy ticks the cursor, the
  sampled values, the sampled positions and the list of issued moves are what they were.
\<close>

theorem busy_ticks_are_noops:
  assumes "busy_polls M (optimized_axis s) (length slots) (hw s)"
  shows "\<exists>h. run_ticks M L slots s = Inr (s\<lparr>hw := h\<rparr>)
           \<and> point_index (state_of (run_ticks M L slots s)) = point_index s
           \<and> scan (state_of (run_ticks M L slots s)) = scan s
           \<and> scan_pos (state_of (run_ticks M L slots s)) = scan_pos s
           \<and> moves (state_of (run_ticks M L slots s)) = moves s"
proof -
  have "\<exists>h. run_ticks M L slots s = Inr (s\<lparr>hw := h\<rparr>)"
    using assms
  proof (induction slots arbitrary: s)
    case Nil
    have "s = s\<lparr>hw := hw s\<rparr>" by simp
    then show ?case by (metis run_ticks.simps(1))
  next
    case (Cons sl rest)
    obtain st h1 where st: "motor_get_status M (hw s) (optimized_axis s) = (st, h1)"
      by (cases "motor_get_status M (hw s) (optimized_axis s)")
    with Cons.prems have b: "busy st" and rest: "busy_polls M (optimized_axis s) (length rest) h1"
      by simp_all
    have t: "tick M L sl s = Inr (s\<lparr>hw := h1\<rparr>)"
      using tick_busy[of M s L sl] b st by simp
    from Cons.IH[of "s\<lparr>hw := h1\<rparr>"] rest
    obtain h where "run_ticks M L rest (s\<lparr>hw := h1\<rparr>) = Inr (s\<lparr>hw := h1\<rparr>\<lparr>hw := h\<rparr>)"
      by auto
    then show ?case using t by auto
  qed
  then show ?thesis by auto
qed

theorem busy_ticks_are_noops_witness:
  "busy_polls sim_hardware (optimized_axis (idle_state\<lparr>hw := 3\<rparr>))
     (length [RasterSlot, GradientSlot, RasterSlot]) (hw (idle_state\<lparr>hw := 3\<rparr>))
   \<and> run_ticks sim_hardware sim_lmfit [RasterSlot, GradientSlot, RasterSlot] (idle_state\<lparr>hw := 3\<rparr>)
       = Inr idle_state"
proof -
  have polls: "busy_polls sim_hardware (optimized_axis (idle_state\<lparr>hw := 3\<rparr>))
     (length [RasterSlot, GradientSlot, RasterSlot]) (hw (idle_state\<lparr>hw := 3\<rparr>))"
    by (simp add: idle_state_def sim_hardware_def busy_def dict_values_def)
  have run: "run_ticks sim_hardware sim_lmfit [RasterSlot, GradientSlot, RasterSlot] (idle_state\<lparr>hw := 3\<rparr>)
       = Inr idle_state"
    by (simp add: raster_scan_def gradient_descent_def get_status_def idle_state_def
        sim_hardware_def busy_def dict_values_def)
  show ?thesis
    using busy_ticks_are_noops[OF polls, of sim_lmfit] run polls by simp
qed


section \<open>Runs, cancellation and restarts\<close>

lemma scan_point_Inr:
  assumes "scan_point M i s = Inr s'"
  shows "motor_positions s' = motor_positions s \<and> points s' = points s
         \<and> point_index s' = point_index s \<and> connections s' = connections s
         \<and> optimized_axis s' = optimized_axis s \<and> \<not> is_array (scan_pos s')
         \<and> (\<exists>v. scan s' = PyList (items (scan s) @ [v])) \<and> \<not> is_array (scan s)"
  using assms
  by (auto simp add: scan_point_def move_abs_def get_pos_def get_process_value_def Let_def
      split: sum.splits prod.splits pyseq.splits if_splits)

lemma slopes_of_lists: "\<not> is_array pos \<Longrightarrow> \<exists>e. slopes vals pos k = Inl e"
  by (auto simp add: slopes_def row_subtract_def split: sum.splits)

lemma gradient_step_raises: "\<exists>e s'. gradient_step M s = Inl (e, s')"
proof (cases "scan_point M (point_index s) s")
  case (Inl err)
  then show ?thesis by (cases err) (simp add: gradient_step_def)
next
  case sp: (Inr s1)
  from scan_point_Inr[OF sp] have "\<not> is_array (scan_pos s1)" by simp
  from slopes_of_lists[OF this]
  obtain e where "slopes (scan s1) (scan_pos s1) (point_index s1) = Inl e" by blast
  then show ?thesis using sp by (simp add: gradient_step_def)
qed

lemma gradient_descent_raises:
  assumes "\<not> busy (fst (motor_get_status M (hw s) (optimized_axis s)))"
  shows "\<exists>e s'. gradient_descent M s = Inl (e, s')"
proof -
  obtain st h where st: "motor_get_status M (hw s) (optimized_axis s) = (st, h)"
    by (cases "motor_get_status M (hw s) (optimized_axis s)")
  show ?thesis
  proof (cases "gradient_begin (s\<lparr>hw := h\<rparr>)")
    case (Inl err)
    then show ?thesis using assms st
      by (cases err) (simp add: gradient_descent_def get_status_def)
  next
    case (Inr s2)
    then show ?thesis using assms st gradient_step_raises[of M s2]
      by (simp add: gradient_descent_def get_status_def)
  qed
qed

lemma gradient_descent_Inr:
  assumes "gradient_descent M s = Inr s'"
  shows "\<exists>h. s' = s\<lparr>hw := h\<rparr>"
proof (cases "busy (fst (motor_get_status M (hw s) (optimized_axis s)))")
  case True
  then show ?thesis using assms gradient_descent_busy[of M s] by auto
next
  case False
  then show ?thesis using gradient_descent_raises[of M s] assms by auto
qed

lemma fit_and_move_Inr:
  assumes "fit_and_move M L s = Inr s'"
  shows "points s' = points s \<and> point_index s' = point_index s"
  using assms
  by (auto simp add: fit_and_move_def set_motor_positions_def move_abs_def get_pos_def Let_def
      split: sum.splits prod.splits)

lemma fit_and_move_no_samples:
  "items (scan s) = [] \<Longrightarrow> \<exists>e s'. fit_and_move M L s = Inl (e, s')"
  by (auto simp add: fit_and_move_def fit_params_def np_argmax_def Let_def split: sum.splits)

lemma raster_begin_Inr:
  assumes "raster_begin s = Inr s'"
  shows "motor_positions s' = motor_positions s \<and> point_index s' = point_index s
         \<and> connections s' = connections s
         \<and> (if point_index s = 0 then scan s' = PyList [] \<and> (\<exists>pts. points s' = PointsArray pts)
             else s' = s)"
  using assms by (auto simp add: raster_begin_def split: sum.splits if_splits)

lemma raster_step_invariant:
  assumes "raster_step M L s = Inr s'"
      and "run_invariant mp s"
      and "point_index s = 0 \<longrightarrow> scan s = PyList []"
  shows "run_invariant mp s'"
proof -
  from assms(1) obtain pts where pts: "points s = PointsArray pts"
    by (cases "points s") (simp_all add: raster_step_def points_rows_def)
  show ?thesis
  proof (cases "point_index s < length pts")
    case True
    with assms(1) pts obtain s1 where sp: "scan_point M (point_index s) s = Inr s1"
      and s': "s' = s1\<lparr>point_index := point_index s1 + 1\<rparr>"
      by (auto simp add: raster_step_def points_rows_def split: sum.splits)
    from True pts assms(2) have "motor_positions s = mp"
      by (auto simp add: run_invariant_def)
    then show ?thesis using scan_point_Inr[OF sp] s' by (simp add: run_invariant_def)
  next
    case False
    with assms(1) pts have fm: "fit_and_move M L s = Inr s'"
      by (simp add: raster_step_def points_rows_def)
    have "0 < point_index s"
    proof (rule ccontr)
      assume "\<not> 0 < point_index s"
      then have "items (scan s) = []" using assms(3) by simp
      from fit_and_move_no_samples[OF this, of M L] fm show False by simp
    qed
    then show ?thesis using fit_and_move_Inr[OF fm] pts False by (simp add: run_invariant_def)
  qed
qed

lemma raster_scan_invariant:
  assumes "raster_scan M L s = Inr s'" and "run_invariant mp s"
  shows "run_invariant mp s'"
proof -
  obtain st h where st: "motor_get_status M (hw s) (optimized_axis s) = (st, h)"
    by (cases "motor_get_status M (hw s) (optimized_axis s)")
  have inv1: "run_invariant mp (s\<lparr>hw := h\<rparr>)"
    using assms(2) by (simp add: run_invariant_def)
  show ?thesis
  proof (cases "busy st")
    case True
    then show ?thesis using assms(1) st inv1 by (simp add: raster_scan_def get_status_def)
  next
    case False
    with assms(1) st obtain s2 where rb: "raster_begin (s\<lparr>hw := h\<rparr>) = Inr s2"
      and rs: "raster_step M L s2 = Inr s'"
      by (auto simp add: raster_scan_def get_status_def split: sum.splits)
    have inv2: "run_invariant mp s2"
    proof (cases "point_index s = 0")
      case True
      then have "motor_positions s = mp" using assms(2)
        by (cases "points s") (auto simp add: run_invariant_def)
      then show ?thesis using raster_begin_Inr[OF rb] by (simp add: run_invariant_def)
    next
      case False
      then show ?thesis using raster_begin_Inr[OF rb] inv1 by simp
    qed
    have "point_index s2 = 0 \<longrightarrow> scan s2 = PyList []"
      using raster_begin_Inr[OF rb] by (auto split: if_splits)
    from raster_step_invariant[OF rs inv2 this] show ?thesis .
  qed
qed

lemma tick_invariant:
  assumes "tick M L sl s = Inr s'" and "run_invariant mp s"
  shows "run_invariant mp s'"
proof (cases sl)
  case RasterSlot
  then show ?thesis using assms raster_scan_invariant[of M L s s' mp] by simp
next
  case GradientSlot
  then obtain h where "s' = s\<lparr>hw := h\<rparr>"
    using assms(1) gradient_descent_Inr[of M s s'] by auto
  then show ?thesis using assms(2) by (simp add: run_invariant_def)
qed

lemma run_ticks_invariant:
  "run_ticks M L slots s = Inr s' \<Longrightarrow> run_invariant mp s \<Longrightarrow> run_invariant mp s'"
proof (induction slots arbitrary: s)
  case Nil
  then show ?case by simp
next
  case (Cons sl rest)
  from Cons.prems(1) obtain s1 where t: "tick M L sl s = Inr s1"
    and r: "run_ticks M L rest s1 = Inr s'"
    by (auto split: sum.splits)
  from Cons.IH[OF r tick_invariant[OF t Cons.prems(2)]] show ?case .
qed

lemma start_optimization_invariant:
  assumes "start_optimization M L s = Inr s'"
  shows "run_invariant (motor_positions s) s'"
proof -
  let ?r = "s\<lparr>point_index := 0, connections := connections s @ [RasterSlot]\<rparr>"
  let ?g = "s\<lparr>point_index := 0, connections := connections s @ [GradientSlot]\<rparr>"
  have r: "run_invariant (motor_positions s) ?r" and g: "run_invariant (motor_positions s) ?g"
    by (simp_all add: run_invariant_def)
  have "start_optimization M L s = raster_scan M L ?r
       \<or> start_optimization M L s = gradient_descent M ?g
       \<or> start_optimization M L s = Inr (s\<lparr>point_index := 0\<rparr>)"
    by (simp add: start_optimization_def Let_def)
  then consider (raster) "start_optimization M L s = raster_scan M L ?r"
    | (gradient) "start_optimization M L s = gradient_descent M ?g"
    | (none) "start_optimization M L s = Inr (s\<lparr>point_index := 0\<rparr>)"
    by blast
  then show ?thesis
  proof cases
    case raster
    then show ?thesis using assms raster_scan_invariant[OF _ r, of M L s'] by simp
  next
    case gradient
    then show ?thesis using assms tick_invariant[of M L GradientSlot ?g s', OF _ g] by simp
  next
    case none
    then show ?thesis using assms by (auto simp add: run_invariant_def)
  qed
qed

text \<open>
  Once the point array exists: in a run begun by \<^verbatim>\<open>start_optimization\<close> and driven by any
  ticks, cancelling while the cursor is below the number of points of the array disconnects
  the signal (no tick is re-armed), samples nothing, and commands the positioner to the
  position that was cached when the run was started.
\<close>

lemma cancel_restores_start_position:
  assumes "start_optimization M L s0 = Inr s1"
      and "run_ticks M L slots s1 = Inr s"
      and "points s = PointsArray pts"
      and "point_index s < length pts"
  shows "\<exists>h. stop_optimization M s =
               Inr (s\<lparr>connections := [], hw := h, moves := moves s @ [motor_positions s0]\<rparr>)"
proof -
  have "run_invariant (motor_positions s0) s"
    using run_ticks_invariant[OF assms(2) start_optimization_invariant[OF assms(1)]] .
  then have mp: "motor_positions s = motor_positions s0"
    using assms(3,4) by (auto simp add: run_invariant_def)
  obtain r h where "motor_move_abs M (hw s) (motor_positions s0) = (r, h)"
    by (cases "motor_move_abs M (hw s) (motor_positions s0)")
  then have "stop_optimization M s =
             Inr (s\<lparr>connections := [], hw := h, moves := moves s @ [motor_positions s0]\<rparr>)"
    using assms(3,4) mp by (simp add: stop_optimization_def points_rows_def move_abs_def)
  then show ?thesis by blast
qed



section \<open>The simulated rig at work\<close>

lemma idle_fields:
  "optimized_axis idle_state = [''x'', ''y'']"
  "axis_list idle_state = [''x'', ''y'']"
  "axis_range idle_state = [''x'' \<mapsto> [0, 1, 2], ''y'' \<mapsto> [0, 1]]"
  "scan_delay idle_state = 0"
  "optimization_method idle_state = MethodStr ''raster''"
  "motor_positions idle_state = [(''x'', 0), (''y'', 0)]"
  "point_index idle_state = 0"
  "points idle_state = PointsUnset"
  "scan idle_state = PyList []"
  "scan_pos idle_state = PyList []"
  "connections idle_state = []"
  "hw idle_state = 0"
  "moves idle_state = []"
  by (simp_all add: idle_state_def)

lemma sim_hardware_calls:
  "motor_get_status sim_hardware h axes = (map (\<lambda>a. (a, h = 0)) axes, h - 1)"
  "motor_move_abs sim_hardware h d = (d, h)"
  "motor_get_pos sim_hardware h axes = (map (\<lambda>a. (a, 0)) axes, h)"
  "counter_get_process_value sim_hardware h = (1, h)"
  "time_sleep sim_hardware t h = h"
  by (simp_all add: sim_hardware_def)


lemma grid_xy:
  "raster_points [[0, 1, 2], [0, 1 :: real]] = Inr [[0, 0], [0, 1], [1, 0], [1, 1], [2, 0], [2, 1]]"
  by (simp add: raster_points_product)

lemmas tick_unfold =
  raster_scan_def raster_begin_def raster_step_def scan_point_def get_status_def move_abs_def
  get_pos_def get_process_value_def busy_def dict_values_def dict_getitem_def points_rows_def
  points_item_def item2_def seq_getitem_def

lemma start_idle:
  "start_optimization sim_hardware sim_lmfit idle_state = Inr first_state"
  by (simp add: start_optimization_def first_state_def tick_unfold idle_fields sim_hardware_calls
      grid_xy Let_def)

lemma tick_first:
  "run_ticks sim_hardware sim_lmfit [RasterSlot] first_state = Inr scanning_state"
  by (simp add: first_state_def scanning_state_def tick_unfold idle_fields sim_hardware_calls Let_def)

text \<open>
  On the simulated rig: a raster run is started, one more tick samples the second point,
  and the cancellation commands the move back to the start position.
\<close>

lemma cancel_restores_start_position_example:
  "start_optimization sim_hardware sim_lmfit idle_state = Inr first_state
   \<and> run_ticks sim_hardware sim_lmfit [RasterSlot] first_state = Inr scanning_state
   \<and> points scanning_state = PointsArray [[0, 0], [0, 1], [1, 0], [1, 1], [2, 0], [2, 1]]
   \<and> point_index scanning_state < length [[0, 0], [0, 1], [1, 0], [1, 1], [2, 0], [2, 1 :: real]]
   \<and> stop_optimization sim_hardware scanning_state =
       Inr (scanning_state\<lparr>connections := [],
              moves := moves scanning_state @ [[(''x'', 0), (''y'', 0)]]\<rparr>)"
proof -
  have pts: "points scanning_state = PointsArray [[0, 0], [0, 1], [1, 0], [1, 1], [2, 0], [2, 1]]"
    and idx: "point_index scanning_state < length [[0, 0], [0, 1], [1, 0], [1, 1], [2, 0], [2, 1 :: real]]"
    by (simp_all add: scanning_state_def)
  from cancel_restores_start_position[OF start_idle tick_first pts idx]
  obtain h where "stop_optimization sim_hardware scanning_state =
      Inr (scanning_state\<lparr>connections := [], hw := h,
             moves := moves scanning_state @ [motor_positions idle_state]\<rparr>)" ..
  moreover have "stop_optimization sim_hardware scanning_state =
       Inr (scanning_state\<lparr>connections := [],
              moves := moves scanning_state @ [[(''x'', 0), (''y'', 0)]]\<rparr>)"
    by (simp add: stop_optimization_def scanning_state_def points_rows_def move_abs_def
        idle_fields sim_hardware_calls)
  ultimately show ?thesis using start_idle tick_first pts idx by simp
qed

text \<open>
  C3. The specification asks that cancelling any active run with points left to visit
  stops it and moves the positioner back. \<^verbatim>\<open>stop_optimization\<close> tests
  \<^verbatim>\<open>self._points.shape[0]\<close>, and \<^verbatim>\<open>_points\<close> is bound only by the first tick that finds the
  positioner ready. A run started while the positioner is busy is active (the slot is
  connected, ticks are re-armed) and has visited no point; cancelling it raises
  \<^verbatim>\<open>AttributeError\<close> before the signal is disconnected and before any move. With the array
  bound the rollback is as specified (\<open>cancel_restores_start_position\<close>).
\<close>

theorem cancel_before_first_point_raises:
  "start_optimization sim_hardware sim_lmfit (idle_state\<lparr>hw := 3\<rparr>) =
     Inr (idle_state\<lparr>connections := [RasterSlot], hw := 2\<rparr>)
   \<and> run_ticks sim_hardware sim_lmfit [RasterSlot, RasterSlot]
         (idle_state\<lparr>connections := [RasterSlot], hw := 2\<rparr>) =
       Inr (idle_state\<lparr>connections := [RasterSlot], hw := 0\<rparr>)
   \<and> stop_optimization sim_hardware (idle_state\<lparr>connections := [RasterSlot], hw := 0\<rparr>) =
       Inl (AttributeError, idle_state\<lparr>connections := [RasterSlot], hw := 0\<rparr>)"
  by (simp add: start_optimization_def stop_optimization_def raster_scan_def get_status_def
      busy_def dict_values_def points_rows_def idle_fields sim_hardware_calls Let_def)

text \<open>
  Starting while a raster run is active (the slot is connected, two points are sampled)
  is not rejected: it returns normally, with the cursor back at the second point, the
  samples replaced by one new sample, one more move issued and the slot connected twice.
\<close>

theorem start_while_scanning_counterexample:
  "connections scanning_state = [RasterSlot]
   \<and> point_index scanning_state = 2
   \<and> start_optimization sim_hardware sim_lmfit scanning_state =
       Inr (scanning_state\<lparr>point_index := 1, scan := PyList [1], scan_pos := PyList [[0, 0]],
              connections := [RasterSlot, RasterSlot],
              moves := moves scanning_state @ [[(''x'', 0), (''y'', 0)]]\<rparr>)"
  by (simp add: start_optimization_def scanning_state_def tick_unfold idle_fields sim_hardware_calls
      grid_xy Let_def)

text \<open>
  C7 (amended). \<^verbatim>\<open>start_optimization\<close> has no check for a run in progress. In raster mode,
  whether or not a run is active, a call that returns has connected the tick slot once
  more and has restarted the cursor: at most the first point of the grid has been sampled.
\<close>

theorem start_restarts_raster_run:
  assumes "optimization_method s = MethodStr ''raster''"
      and "start_optimization M L s = Inr s'"
  shows "connections s' = connections s @ [RasterSlot] \<and> point_index s' \<le> 1"
proof -
  let ?r = "s\<lparr>point_index := 0, connections := connections s @ [RasterSlot]\<rparr>"
  have run: "raster_scan M L ?r = Inr s'"
    using assms by (simp add: start_optimization_def Let_def)
  obtain st h where st: "motor_get_status M (hw s) (optimized_axis s) = (st, h)"
    by (cases "motor_get_status M (hw s) (optimized_axis s)")
  show ?thesis
  proof (cases "busy st")
    case True
    then show ?thesis using run st by (auto simp add: raster_scan_def get_status_def)
  next
    case False
    with run st obtain s2 where rb: "raster_begin (?r\<lparr>hw := h\<rparr>) = Inr s2"
      and rs: "raster_step M L s2 = Inr s'"
      by (auto simp add: raster_scan_def get_status_def split: sum.splits)
    from raster_begin_Inr[OF rb] obtain pts where
      s2: "point_index s2 = 0" "connections s2 = connections s @ [RasterSlot]"
          "scan s2 = PyList []" "points s2 = PointsArray pts"
      by auto
    show ?thesis
    proof (cases "0 < length pts")
      case True
      with rs s2 obtain s3 where sp: "scan_point M 0 s2 = Inr s3"
        and s': "s' = s3\<lparr>point_index := point_index s3 + 1\<rparr>"
        by (auto simp add: raster_step_def points_rows_def split: sum.splits)
      then show ?thesis using scan_point_Inr[OF sp] s2 by simp
    next
      case False
      with rs s2 have "fit_and_move M L s2 = Inr s'"
        by (simp add: raster_step_def points_rows_def)
      moreover have "items (scan s2) = []" using s2 by simp
      ultimately show ?thesis using fit_and_move_no_samples[of s2 M L] by auto
    qed
  qed
qed

theorem start_restarts_raster_run_witness:
  "optimization_method scanning_state = MethodStr ''raster''
   \<and> connections scanning_state \<noteq> []
   \<and> start_optimization sim_hardware sim_lmfit scanning_state =
       Inr (scanning_state\<lparr>point_index := 1, scan := PyList [1], scan_pos := PyList [[0, 0]],
              connections := [RasterSlot, RasterSlot],
              moves := moves scanning_state @ [[(''x'', 0), (''y'', 0)]]\<rparr>)
   \<and> connections (state_of (start_optimization sim_hardware sim_lmfit scanning_state))
       = connections scanning_state @ [RasterSlot]
   \<and> point_index (state_of (start_optimization sim_hardware sim_lmfit scanning_state)) \<le> 1"
proof -
  have m: "optimization_method scanning_state = MethodStr ''raster''"
    by (simp add: scanning_state_def idle_fields)
  have run: "start_optimization sim_hardware sim_lmfit scanning_state =
       Inr (scanning_state\<lparr>point_index := 1, scan := PyList [1], scan_pos := PyList [[0, 0]],
              connections := [RasterSlot, RasterSlot],
              moves := moves scanning_state @ [[(''x'', 0), (''y'', 0)]]\<rparr>)"
    by (simp add: start_optimization_def scanning_state_def tick_unfold idle_fields
        sim_hardware_calls grid_xy Let_def)
  from start_restarts_raster_run[OF m run] show ?thesis
    using m run by (simp add: scanning_state_def)
qed



section \<open>The fit after a raster scan\<close>






lemma width_param_value:
  assumes "width_param rows j = Inr p"
      and "item2 rows 0 j = Inr first"
      and "item2 rows (- 1) j = Inr final"
  shows "pvalue p = (first - final) / 10 \<and> pmax p = Some (first - final)"
  using assms by (auto simp add: width_param_def split: sum.splits)

text \<open>
  C9. The specification asks for an initial width of one tenth of the scanned span,
  bounded below by the spacing of the scanned points, hence positive. On the ascending scan
  0, 1, 2, 3 of one axis the code passes the value \<open>(first - last) / 10 = -0.3\<close>, with the
  upper bound \<open>first - last = -3\<close> below the lower bound 1: the sign of the span is reversed.
\<close>

theorem width_guess_ascending_scan:
  "width_param [[0], [1], [2], [3]] 0 =
     Inr \<lparr>pname = W 0, pmin = Some 1, pmax = Some (- 3), pvalue = - (3 / 10)\<rparr>"
  by (simp add: width_param_def column_def np_subtract_def np_min_def item2_def seq_getitem_def)

section \<open>Gradient ticks\<close>

text \<open>
  C4. The step rule of the specification is the one that lines 331 to 341 set out to
  implement. The code never gets there: started in gradient mode with the positioner ready, the first
  tick raises \<^verbatim>\<open>KeyError\<close> at \<^verbatim>\<open>self._motor_positions[i]\<close> before any sample is taken (and by
  \<open>gradient_descent_raises\<close> every tick that finds the positioner ready raises).
\<close>

theorem gradient_start_raises:
  "start_optimization sim_hardware sim_lmfit gradient_state =
     Inl (KeyError, gradient_state\<lparr>connections := [GradientSlot]\<rparr>)"
  by (simp add: start_optimization_def gradient_state_def gradient_descent_def gradient_begin_def
      initial_points_def dict_getitem_index_def get_status_def busy_def dict_values_def
      idle_fields sim_hardware_calls Let_def enumerate_eq_zip upt_conv_Cons del: upt_Suc)


end
